theory Spec2Isabelle
  imports Main "HOL-Library.AList"
begin

section \<open>Python values, builtins and errors\<close>

text \<open>
  The module \<^verbatim>\<open>dynamo_items\<close> maps pydantic records to the composite keys of one
  DynamoDB table. Everything below follows \<^verbatim>\<open>src/dynamo_items/__init__.py\<close>.

  Python values are modelled on the fragment whose JSON form is the value itself:
  \<^verbatim>\<open>None\<close>, \<^verbatim>\<open>bool\<close>, \<^verbatim>\<open>int\<close> (unbounded) and \<^verbatim>\<open>str\<close>. A \<^verbatim>\<open>str\<close> is a \<open>string\<close>
  of ASCII characters.
\<close>

datatype pyval = PNone | PBool bool | PInt int | PStr string

text \<open>
  \<^verbatim>\<open>AllowedPrimaryKeyTypes = Union[str, int, float, bytes]\<close>: the type objects a Table
  can declare for a key slot.
\<close>

datatype scalar_type = PyStr | PyInt | PyFloat | PyBytes

text \<open>
  The exceptions the module raises or lets through. \<open>AttributeError\<close>, \<open>TypeError\<close> and
  \<open>ValueError\<close> carry the name the message is about (an attribute, or the key slot);
  \<open>ValidationError\<close> is pydantic's, \<open>StoreError\<close> is any error answer of the store
  client.
\<close>

datatype error =
    AttributeError string
  | TypeError string
  | ValueError string
  | IndexError
  | ValidationError
  | StoreError

subsection \<open>\<^verbatim>\<open>str(value)\<close> and the type objects as callables\<close>

definition digit_char :: "nat \<Rightarrow> char" where
  "digit_char d = ''0123456789'' ! d"

function string_of_nat :: "nat \<Rightarrow> string" where
  "string_of_nat n =
     (if n < 10 then [digit_char n]
      else string_of_nat (n div 10) @ [digit_char (n mod 10)])"
  by pat_completeness auto
termination
  by (relation "measure id") auto

definition string_of_int :: "int \<Rightarrow> string" where
  "string_of_int i =
     (if i < 0 then CHR ''-'' # string_of_nat (nat (- i)) else string_of_nat (nat i))"

text \<open>What an f-string field \<^verbatim>\<open>{value}\<close> and \<^verbatim>\<open>str(value)\<close> give.\<close>

fun py_str :: "pyval \<Rightarrow> string" where
  "py_str PNone = ''None''"
| "py_str (PBool b) = (if b then ''True'' else ''False'')"
| "py_str (PInt i) = string_of_int i"
| "py_str (PStr s) = s"

text \<open>
  Calling a type object on a value, as \<^verbatim>\<open>self._table.partition_key_type(value)\<close> does.
  \<^verbatim>\<open>str(v)\<close> is total; \<^verbatim>\<open>int(v)\<close> is given for \<^verbatim>\<open>int\<close>, \<^verbatim>\<open>bool\<close> and \<^verbatim>\<open>None\<close>. The
  remaining calls (parsing a \<^verbatim>\<open>str\<close> as an integer, \<^verbatim>\<open>float\<close>, \<^verbatim>\<open>bytes\<close>) belong to the
  Python runtime and are the parameter \<open>rt\<close>.
\<close>

definition call_type ::
  "(scalar_type \<Rightarrow> pyval \<Rightarrow> error + pyval) \<Rightarrow> scalar_type \<Rightarrow> pyval \<Rightarrow> error + pyval" where
  "call_type rt ty v =
     (case ty of
        PyStr \<Rightarrow> Inr (PStr (py_str v))
      | PyInt \<Rightarrow>
          (case v of
             PInt i \<Rightarrow> Inr (PInt i)
           | PBool b \<Rightarrow> Inr (PInt (if b then 1 else 0))
           | PNone \<Rightarrow> Inl (TypeError ''int'')
           | PStr s \<Rightarrow> rt PyInt v)
      | _ \<Rightarrow> rt ty v)"

subsection \<open>\<^verbatim>\<open>str.upper\<close>\<close>

definition upper_char :: "char \<Rightarrow> char" where
  "upper_char c =
     (case map_of (zip ''abcdefghijklmnopqrstuvwxyz'' ''ABCDEFGHIJKLMNOPQRSTUVWXYZ'') c of
        Some u \<Rightarrow> u
      | None \<Rightarrow> c)"

definition upper :: "string \<Rightarrow> string" where
  "upper s = map upper_char s"

section \<open>Table: the prefix registry\<close>

text \<open>
  \<^verbatim>\<open>Table.__init__\<close> keeps the name, the two key types, the dictionary
  \<^verbatim>\<open>key_prefixes\<close> from \<^verbatim>\<open>"<item>.<attr>"\<close> to the prefix issued for it, and the set
  \<^verbatim>\<open>_key_prefix_names\<close> of issued prefixes. The DynamoDB handle is the store passed to
  \<open>put_item\<close> and \<open>get_item\<close> below; \<^verbatim>\<open>gsis\<close> is never read.
\<close>

record table =
  table_name :: string
  partition_key_type :: scalar_type
  sort_key_type :: "scalar_type option"
  key_prefixes :: "string \<rightharpoonup> string"
  key_prefix_names :: "string set"

definition Table_init :: "string \<Rightarrow> scalar_type \<Rightarrow> scalar_type option \<Rightarrow> table" where
  "Table_init n pk_type sk_type =
     \<lparr>table_name = n, partition_key_type = pk_type, sort_key_type = sk_type,
      key_prefixes = Map.empty, key_prefix_names = {}\<rparr>"

text \<open>
  The loop of \<^verbatim>\<open>get_prefix\<close> (lines 69 to 74): each round first appends the next
  upper-cased character of \<^verbatim>\<open>attr\<close> and then tests the result against the issued set.
  Falling out of the loop returns \<^verbatim>\<open>None\<close>.
\<close>

fun find_prefix :: "string set \<Rightarrow> string \<Rightarrow> string \<Rightarrow> string option" where
  "find_prefix names prefix [] = None"
| "find_prefix names prefix (c # cs) =
     (let prefix' = prefix @ upper [c]
      in if prefix' \<notin> names then Some prefix' else find_prefix names prefix' cs)"

definition prefix_key :: "string \<Rightarrow> string \<Rightarrow> string" where
  "prefix_key item attr = item @ ''.'' @ attr"

text \<open>
  \<^verbatim>\<open>Table.get_prefix\<close>. The result is the returned value (\<open>None\<close> for Python's
  \<^verbatim>\<open>None\<close>) or the exception, together with the table as the call leaves it.
  \<^verbatim>\<open>item[0]\<close> raises \<^verbatim>\<open>IndexError\<close> on the empty string.
\<close>

definition get_prefix :: "table \<Rightarrow> string \<Rightarrow> string \<Rightarrow> (error + string option) \<times> table" where
  "get_prefix t item attr =
     (case key_prefixes t (prefix_key item attr) of
        Some p \<Rightarrow> (Inr (Some p), t)
      | None \<Rightarrow>
          (case item of
             [] \<Rightarrow> (Inl IndexError, t)
           | i0 # _ \<Rightarrow>
               (case find_prefix (key_prefix_names t) (upper [i0]) attr of
                  None \<Rightarrow> (Inr None, t)
                | Some p \<Rightarrow>
                    (Inr (Some p),
                     t\<lparr>key_prefix_names := insert p (key_prefix_names t),
                       key_prefixes := (key_prefixes t)(prefix_key item attr \<mapsto> p)\<rparr>))))"

section \<open>Key definitions and record shapes\<close>

text \<open>
  \<^verbatim>\<open>class Key(BaseModel)\<close> with its fields \<^verbatim>\<open>attr\<close>, \<^verbatim>\<open>prefix\<close>, \<^verbatim>\<open>prefix_value\<close> and
  \<^verbatim>\<open>seperator\<close> (the source's spelling); \<open>Key a\<close> is \<^verbatim>\<open>Key(attr=a)\<close> with the declared
  defaults.
\<close>

record key =
  k_attr :: string
  k_prefix :: bool
  k_prefix_value :: "string option"
  k_seperator :: string

definition Key :: "string \<Rightarrow> key" where
  "Key a = \<lparr>k_attr = a, k_prefix = True, k_prefix_value = None, k_seperator = ''#''\<rparr>"

text \<open>
  A field annotation as \<^verbatim>\<open>typing\<close> sees it: a class, \<^verbatim>\<open>NoneType\<close>, a union
  (\<^verbatim>\<open>Union[...]\<close>, \<^verbatim>\<open>Optional[...]\<close> or \<^verbatim>\<open>X | Y\<close>, whose origin is \<^verbatim>\<open>Union\<close> or
  \<^verbatim>\<open>UnionType\<close>) or another generic alias such as \<^verbatim>\<open>list[int]\<close>.
\<close>

datatype annotation =
    TyClass string
  | TyNone
  | TyUnion "annotation list"
  | TyGeneric string "annotation list"

fun is_optional :: "annotation \<Rightarrow> bool" where
  "is_optional (TyUnion args) = (TyNone \<in> set args)"
| "is_optional _ = False"

text \<open>
  What the module reads of a pydantic model class: \<^verbatim>\<open>__name__\<close> and the ordered
  dictionary \<^verbatim>\<open>model_fields\<close>, each field with its annotation and its default
  (\<open>None\<close> when the field is required).
\<close>

record field_info =
  f_annotation :: annotation
  f_default :: "pyval option"

record shape =
  model_name :: string
  model_fields :: "(string \<times> field_info) list"

section \<open>Item: construction\<close>

record item =
  item_pk :: key
  item_sk :: "key option"
  item_model :: shape
  item_table :: table

text \<open>
  Lines 110 to 127 of \<^verbatim>\<open>Item.__init__\<close>: the checks, in the source's order. The
  result is the exception raised, if any.
\<close>

definition validate_keys :: "shape \<Rightarrow> key \<Rightarrow> key option \<Rightarrow> table \<Rightarrow> error option" where
  "validate_keys m pk sk t =
     (case map_of (model_fields m) (k_attr pk) of
        None \<Rightarrow> Some (AttributeError (k_attr pk))
      | Some pf \<Rightarrow>
          if is_optional (f_annotation pf) then Some (TypeError (k_attr pk))
          else
            (case (case sk of
                     None \<Rightarrow> None
                   | Some s \<Rightarrow>
                       (case map_of (model_fields m) (k_attr s) of
                          None \<Rightarrow> Some (AttributeError (k_attr s))
                        | Some sf \<Rightarrow>
                            if is_optional (f_annotation sf) then Some (TypeError (k_attr s))
                            else None)) of
               Some e \<Rightarrow> Some e
             | None \<Rightarrow>
                 if k_prefix pk \<and> partition_key_type t \<noteq> PyStr then Some (ValueError ''pk'')
                 else if (case sk of
                            None \<Rightarrow> False
                          | Some s \<Rightarrow> k_prefix s \<and> sort_key_type t \<noteq> Some PyStr)
                 then Some (ValueError ''sk'')
                 else None))"

text \<open>
  Lines 129 to 133: a key without \<^verbatim>\<open>prefix_value\<close> gets the one \<^verbatim>\<open>get_prefix\<close> returns
  (possibly \<^verbatim>\<open>None\<close> again); an exception of \<^verbatim>\<open>get_prefix\<close> leaves \<^verbatim>\<open>__init__\<close> with the
  table as it is at that moment.
\<close>

definition resolve_prefix :: "table \<Rightarrow> string \<Rightarrow> key \<Rightarrow> (error + key) \<times> table" where
  "resolve_prefix t item k =
     (if k_prefix_value k = None then
        (case get_prefix t item (k_attr k) of
           (Inl e, t') \<Rightarrow> (Inl e, t')
         | (Inr p, t') \<Rightarrow> (Inr (k\<lparr>k_prefix_value := p\<rparr>), t'))
      else (Inr k, t))"

text \<open>
  \<^verbatim>\<open>Item.__init__\<close> on the table that line 105 selects. \<open>pk_arg\<close> and \<open>sk_arg\<close> are
  \<open>None\<close> for a missing argument. With no \<^verbatim>\<open>pk\<close>, the first key of \<^verbatim>\<open>model_fields\<close> is
  taken; \<^verbatim>\<open>tuple(...)[0]\<close> raises \<^verbatim>\<open>IndexError\<close> on a model without fields. The item
  keeps the table; after construction only its two key types are read through it.
\<close>

definition Item_init ::
  "shape \<Rightarrow> key option \<Rightarrow> key option \<Rightarrow> table \<Rightarrow> (error + item) \<times> table" where
  "Item_init m pk_arg sk_arg t =
     (case (case pk_arg of
              Some k \<Rightarrow> Inr k
            | None \<Rightarrow>
                (case model_fields m of
                   [] \<Rightarrow> Inl IndexError
                 | (a, _) # _ \<Rightarrow> Inr (Key a))) of
        Inl e \<Rightarrow> (Inl e, t)
      | Inr pk \<Rightarrow>
          (case validate_keys m pk sk_arg t of
             Some e \<Rightarrow> (Inl e, t)
           | None \<Rightarrow>
               (case resolve_prefix t (model_name m) pk of
                  (Inl e, t1) \<Rightarrow> (Inl e, t1)
                | (Inr pk', t1) \<Rightarrow>
                    (case sk_arg of
                       None \<Rightarrow>
                         (Inr \<lparr>item_pk = pk', item_sk = None, item_model = m,
                               item_table = t1\<rparr>, t1)
                     | Some s \<Rightarrow>
                         (case resolve_prefix t1 (model_name m) s of
                            (Inl e, t2) \<Rightarrow> (Inl e, t2)
                          | (Inr sk', t2) \<Rightarrow>
                              (Inr \<lparr>item_pk = pk', item_sk = Some sk', item_model = m,
                                    item_table = t2\<rparr>, t2))))))"

section \<open>Item: key composition, put and get\<close>

text \<open>
  A Python \<^verbatim>\<open>dict\<close> with string keys is an association list in insertion order;
  \<open>AList.update\<close> is \<^verbatim>\<open>d[k] = v\<close> and \<open>dict_update\<close> is \<^verbatim>\<open>d.update(e)\<close>. A record
  instance is the dictionary of its field values. On the modelled values
  \<^verbatim>\<open>model_dump(mode="json")\<close> returns that dictionary.
\<close>

type_synonym dict = "(string \<times> pyval) list"

definition dict_update :: "dict \<Rightarrow> dict \<Rightarrow> dict" where
  "dict_update d e = fold (\<lambda>(k, v). AList.update k v) e d"

definition getattr :: "dict \<Rightarrow> string \<Rightarrow> error + pyval" where
  "getattr inst a = (case map_of inst a of None \<Rightarrow> Inl (AttributeError a) | Some v \<Rightarrow> Inr v)"

definition model_dump :: "dict \<Rightarrow> dict" where
  "model_dump inst = inst"

text \<open>
  \<^verbatim>\<open>model_validate\<close> of pydantic under its default configuration, as far as presence
  goes: a field takes the value found under its name, else its default; a required
  field that is missing is a \<^verbatim>\<open>ValidationError\<close>; names that are not fields are
  ignored. Values found are taken as they are.
\<close>

fun validate_fields :: "(string \<times> field_info) list \<Rightarrow> dict \<Rightarrow> error + dict" where
  "validate_fields [] d = Inr []"
| "validate_fields ((n, f) # fs) d =
     (case (case map_of d n of Some v \<Rightarrow> Some v | None \<Rightarrow> f_default f) of
        None \<Rightarrow> Inl ValidationError
      | Some v \<Rightarrow>
          (case validate_fields fs d of
             Inl e \<Rightarrow> Inl e
           | Inr r \<Rightarrow> Inr ((n, v) # r)))"

definition model_validate :: "shape \<Rightarrow> dict \<Rightarrow> error + dict" where
  "model_validate m d = validate_fields (model_fields m) d"

text \<open>
  \<^verbatim>\<open>Item._key_value\<close>. The key is \<open>None\<close> when \<^verbatim>\<open>self.sk\<close> is \<^verbatim>\<open>None\<close>; reading
  \<^verbatim>\<open>key.prefix\<close> then raises \<^verbatim>\<open>AttributeError\<close>. The f-string prints a missing
  \<^verbatim>\<open>prefix_value\<close> as \<^verbatim>\<open>None\<close>. The other branch calls the table's
  \<^verbatim>\<open>partition_key_type\<close>, whichever key is composed.
\<close>

definition key_value ::
  "(scalar_type \<Rightarrow> pyval \<Rightarrow> error + pyval) \<Rightarrow> item \<Rightarrow> key option \<Rightarrow> pyval \<Rightarrow> error + pyval" where
  "key_value rt it k v =
     (case k of
        None \<Rightarrow> Inl (AttributeError ''prefix'')
      | Some k \<Rightarrow>
          if k_prefix k then
            Inr (PStr ((case k_prefix_value k of None \<Rightarrow> ''None'' | Some p \<Rightarrow> p)
                        @ k_seperator k @ py_str v))
          else call_type rt (partition_key_type (item_table it)) v)"

text \<open>
  The store client of the table. A stored record is found under its \<^verbatim>\<open>pk\<close> attribute,
  and under its \<^verbatim>\<open>sk\<close> attribute as well when the table declares a sort key;
  \<^verbatim>\<open>put_item(Item=d)\<close> replaces the record under the key of \<open>d\<close>, \<^verbatim>\<open>get_item(Key=k)\<close>
  answers with the record under \<open>k\<close>, if any. A request without a key attribute the
  table has, or a \<^verbatim>\<open>Key\<close> with a sort key the table has not, is refused.
\<close>

type_synonym store = "(pyval \<times> pyval option) \<rightharpoonup> dict"

definition store_key :: "table \<Rightarrow> dict \<Rightarrow> error + (pyval \<times> pyval option)" where
  "store_key t d =
     (case map_of d ''pk'' of
        None \<Rightarrow> Inl StoreError
      | Some p \<Rightarrow>
          (case sort_key_type t of
             None \<Rightarrow> Inr (p, None)
           | Some _ \<Rightarrow>
               (case map_of d ''sk'' of
                  None \<Rightarrow> Inl StoreError
                | Some s \<Rightarrow> Inr (p, Some s))))"

definition store_put_item :: "table \<Rightarrow> store \<Rightarrow> dict \<Rightarrow> error + store" where
  "store_put_item t st d =
     (case store_key t d of Inl e \<Rightarrow> Inl e | Inr k \<Rightarrow> Inr (st(k \<mapsto> d)))"

definition store_get_item :: "table \<Rightarrow> store \<Rightarrow> dict \<Rightarrow> error + dict option" where
  "store_get_item t st k =
     (if sort_key_type t = None \<and> map_of k ''sk'' \<noteq> None then Inl StoreError
      else (case store_key t k of Inl e \<Rightarrow> Inl e | Inr sk \<Rightarrow> Inr (st sk)))"

text \<open>
  \<^verbatim>\<open>Item.put_item\<close>, lines 147 to 152: the dictionary passed as \<^verbatim>\<open>Item=\<close>. The record's
  own fields are written over the composed dictionary by \<^verbatim>\<open>base_item.update\<close>.
\<close>

definition put_item_Item ::
  "(scalar_type \<Rightarrow> pyval \<Rightarrow> error + pyval) \<Rightarrow> item \<Rightarrow> dict \<Rightarrow> error + dict" where
  "put_item_Item rt it inst =
     (case getattr inst (k_attr (item_pk it)) of
        Inl e \<Rightarrow> Inl e
      | Inr pv \<Rightarrow>
          (case key_value rt it (Some (item_pk it)) pv of
             Inl e \<Rightarrow> Inl e
           | Inr p \<Rightarrow>
               (case (if item_sk it = None \<and> sort_key_type (item_table it) \<noteq> None
                      then Inr [(''pk'', p), (''sk'', PStr ''A'')]
                      else
                        (case item_sk it of
                           None \<Rightarrow> Inr [(''pk'', p)]
                         | Some s \<Rightarrow>
                             (case getattr inst (k_attr s) of
                                Inl e \<Rightarrow> Inl e
                              | Inr sv \<Rightarrow>
                                  (case key_value rt it (item_sk it) sv of
                                     Inl e \<Rightarrow> Inl e
                                   | Inr s' \<Rightarrow> Inr [(''pk'', p), (''sk'', s')])))) of
                  Inl e \<Rightarrow> Inl e
                | Inr base_item \<Rightarrow> Inr (dict_update base_item (model_dump inst)))))"

definition put_item ::
  "(scalar_type \<Rightarrow> pyval \<Rightarrow> error + pyval) \<Rightarrow> item \<Rightarrow> dict \<Rightarrow> store \<Rightarrow> error + store" where
  "put_item rt it inst st =
     (case put_item_Item rt it inst of
        Inl e \<Rightarrow> Inl e
      | Inr base_item \<Rightarrow> store_put_item (item_table it) st base_item)"

text \<open>
  \<^verbatim>\<open>Item.get_item\<close>, lines 158 to 162: the dictionary passed as \<^verbatim>\<open>Key=\<close>. The argument
  \<^verbatim>\<open>sk\<close> is \<open>PNone\<close> when it is left out.
\<close>

definition get_item_Key ::
  "(scalar_type \<Rightarrow> pyval \<Rightarrow> error + pyval) \<Rightarrow> item \<Rightarrow> pyval \<Rightarrow> pyval \<Rightarrow> error + dict" where
  "get_item_Key rt it pk sk =
     (case key_value rt it (Some (item_pk it)) pk of
        Inl e \<Rightarrow> Inl e
      | Inr p \<Rightarrow>
          if sk = PNone \<and> sort_key_type (item_table it) \<noteq> None
          then Inr [(''pk'', p), (''sk'', PStr ''A'')]
          else if sk \<noteq> PNone then
            (case key_value rt it (item_sk it) sk of
               Inl e \<Rightarrow> Inl e
             | Inr s \<Rightarrow> Inr [(''pk'', p), (''sk'', s)])
          else Inr [(''pk'', p)])"

text \<open>
  Lines 164 to 166: the point read, then \<^verbatim>\<open>model_validate(resp.get("Item", {}))\<close>.
\<close>

definition get_item ::
  "(scalar_type \<Rightarrow> pyval \<Rightarrow> error + pyval) \<Rightarrow> item \<Rightarrow> pyval \<Rightarrow> pyval \<Rightarrow> store \<Rightarrow> error + dict" where
  "get_item rt it pk sk st =
     (case get_item_Key rt it pk sk of
        Inl e \<Rightarrow> Inl e
      | Inr k \<Rightarrow>
          (case store_get_item (item_table it) st k of
             Inl e \<Rightarrow> Inl e
           | Inr resp \<Rightarrow>
               model_validate (item_model it) (case resp of None \<Rightarrow> [] | Some d \<Rightarrow> d)))"

section \<open>Sequences of prefix assignments\<close>

text \<open>
  A table is only changed by \<^verbatim>\<open>get_prefix\<close>. \<open>get_prefix_calls t cs\<close> is the table after
  the calls \<open>cs\<close>, in order, whatever they return.
\<close>

fun get_prefix_calls :: "table \<Rightarrow> (string \<times> string) list \<Rightarrow> table" where
  "get_prefix_calls t [] = t"
| "get_prefix_calls t ((item, attr) # cs) = get_prefix_calls (snd (get_prefix t item attr)) cs"

text \<open>
  The registry is consistent when every recorded prefix is in the issued set and no
  prefix is recorded for two keys.
\<close>

definition registry_inv :: "table \<Rightarrow> bool" where
  "registry_inv t \<longleftrightarrow>
     (\<forall>k p. key_prefixes t k = Some p \<longrightarrow> p \<in> key_prefix_names t) \<and>
     (\<forall>k k' p. key_prefixes t k = Some p \<and> key_prefixes t k' = Some p \<longrightarrow> k = k')"

section \<open>Conditions of construction\<close>

text \<open>
  The two tests \<^verbatim>\<open>Item.__init__\<close> makes on a key attribute: \<^verbatim>\<open>attr in model_fields\<close>
  and \<^verbatim>\<open>is_optional(model_fields[attr].annotation)\<close>.
\<close>

definition has_attr :: "shape \<Rightarrow> string \<Rightarrow> bool" where
  "has_attr m a \<longleftrightarrow> map_of (model_fields m) a \<noteq> None"

definition optional_attr :: "shape \<Rightarrow> string \<Rightarrow> bool" where
  "optional_attr m a \<longleftrightarrow>
     (case map_of (model_fields m) a of None \<Rightarrow> False | Some f \<Rightarrow> is_optional (f_annotation f))"

section \<open>Example data\<close>

text \<open>
  \<^verbatim>\<open>class User(BaseModel): id: str; email: Optional[str] = None; age: int\<close>
\<close>

definition required :: "annotation \<Rightarrow> field_info" where
  "required a = \<lparr>f_annotation = a, f_default = None\<rparr>"

definition User :: shape where
  "User = \<lparr>model_name = ''User'', model_fields =
     [(''id'', required (TyClass ''str'')),
      (''email'', \<lparr>f_annotation = TyUnion [TyClass ''str'', TyNone], f_default = Some PNone\<rparr>),
      (''age'', required (TyClass ''int''))]\<rparr>"

text \<open>
  A runtime for the calls that \<open>call_type\<close> leaves open; the examples never reach it.
\<close>

definition rt0 :: "scalar_type \<Rightarrow> pyval \<Rightarrow> error + pyval" where
  "rt0 ty v = Inl (ValueError ''runtime'')"

text \<open>\<^verbatim>\<open>Item(User, table=Table("t"))\<close>\<close>

definition user_item :: item where
  "user_item = projr (fst (Item_init User None None (Table_init ''t'' PyStr None)))"

text \<open>
  \<^verbatim>\<open>class Event(BaseModel): id: str; n: int\<close> and
  \<^verbatim>\<open>Item(Event, pk=Key(attr="id"), sk=Key(attr="n", prefix=False),
  table=Table("t", partition_key=str, sort_key=int))\<close>
\<close>

definition Event :: shape where
  "Event = \<lparr>model_name = ''Event'', model_fields =
     [(''id'', required (TyClass ''str'')), (''n'', required (TyClass ''int''))]\<rparr>"

definition event_item :: item where
  "event_item = projr (fst (Item_init Event (Some (Key ''id''))
     (Some ((Key ''n'')\<lparr>k_prefix := False\<rparr>)) (Table_init ''t'' PyStr (Some PyInt))))"

text \<open>
  \<^verbatim>\<open>class Account(BaseModel): pk: str; owner: str\<close> and
  \<^verbatim>\<open>Item(Account, table=Table("t"))\<close>
\<close>

definition Account :: shape where
  "Account = \<lparr>model_name = ''Account'', model_fields =
     [(''pk'', required (TyClass ''str'')), (''owner'', required (TyClass ''str''))]\<rparr>"

definition account_item :: item where
  "account_item = projr (fst (Item_init Account None None (Table_init ''t'' PyStr None)))"

text \<open>
  \<^verbatim>\<open>class Doc(BaseModel): id: str; sk: str\<close> and
  \<^verbatim>\<open>Item(Doc, table=Table("t", sort_key=str))\<close>
\<close>

definition Doc :: shape where
  "Doc = \<lparr>model_name = ''Doc'', model_fields =
     [(''id'', required (TyClass ''str'')), (''sk'', required (TyClass ''str''))]\<rparr>"

definition doc_item :: item where
  "doc_item = projr (fst (Item_init Doc None None (Table_init ''t'' PyStr (Some PyStr))))"

text \<open>
  A model class whose \<^verbatim>\<open>__name__\<close> is the empty string, as
  \<^verbatim>\<open>create_model("", id=(str, ...))\<close> gives.
\<close>

definition Unnamed :: shape where
  "Unnamed = \<lparr>model_name = [], model_fields = [(''id'', required (TyClass ''str''))]\<rparr>"

section \<open>The prefix loop\<close>

lemma find_prefix_None_iff:
  "find_prefix names p cs = None \<longleftrightarrow> (\<forall>n<length cs. p @ upper (take (Suc n) cs) \<in> names)"
proof (induction cs arbitrary: p)
  case Nil
  show ?case by simp
next
  case (Cons c cs)
  show ?case
    using Cons.IH [of "p @ upper [c]"] by (simp add: Let_def All_less_Suc2 upper_def)
qed

lemma find_prefix_Some_iff:
  "find_prefix names p cs = Some q \<longleftrightarrow>
     (\<exists>n<length cs. q = p @ upper (take (Suc n) cs) \<and> q \<notin> names \<and>
        (\<forall>m<n. p @ upper (take (Suc m) cs) \<in> names))"
proof (induction cs arbitrary: p)
  case Nil
  show ?case by simp
next
  case (Cons c cs)
  show ?case
  proof (cases "p @ upper [c] \<in> names")
    case True
    then show ?thesis
      using Cons.IH [of "p @ upper [c]"] by (auto simp add: Let_def Ex_less_Suc2 All_less_Suc2 upper_def)
  next
    case False
    then show ?thesis
      by (auto simp add: Let_def Ex_less_Suc2 All_less_Suc2 upper_def)
  qed
qed

text \<open>
  C1, as the code has it. For a pair without a recorded prefix, \<^verbatim>\<open>get_prefix\<close> returns
  \<open>p\<close> exactly when \<open>p\<close> is the first candidate that is not yet issued, where the
  candidates are the upper-cased first character of the type name followed by the
  first one, two, three, ... upper-cased characters of the attribute. The type
  initial alone is never a candidate: on a fresh table \<^verbatim>\<open>"User"\<close>, \<^verbatim>\<open>"id"\<close> yields
  \<^verbatim>\<open>"UI"\<close>, and \<^verbatim>\<open>"UID"\<close> when \<^verbatim>\<open>"UI"\<close> is already issued.
\<close>

theorem get_prefix_candidates:
  assumes "key_prefixes t (prefix_key (i0 # item) attr) = None"
  shows "fst (get_prefix t (i0 # item) attr) = Inr (Some p) \<longleftrightarrow>
     (\<exists>n<length attr. p = upper [i0] @ upper (take (Suc n) attr) \<and> p \<notin> key_prefix_names t \<and>
        (\<forall>m<n. upper [i0] @ upper (take (Suc m) attr) \<in> key_prefix_names t))"
  using assms find_prefix_Some_iff [of "key_prefix_names t" "upper [i0]" attr p]
  by (auto simp add: get_prefix_def split: option.splits)

theorem get_prefix_candidates_witness:
  "key_prefixes (Table_init ''t'' PyStr None) (prefix_key ''User'' ''id'') = None \<and>
   fst (get_prefix (Table_init ''t'' PyStr None) ''User'' ''id'') = Inr (Some ''UI'') \<and>
   key_prefixes ((Table_init ''t'' PyStr None)\<lparr>key_prefix_names := {''UI''}\<rparr>)
      (prefix_key ''User'' ''id'') = None \<and>
   fst (get_prefix ((Table_init ''t'' PyStr None)\<lparr>key_prefix_names := {''UI''}\<rparr>)
      ''User'' ''id'') = Inr (Some ''UID'')"
proof -
  let ?t = "Table_init ''t'' PyStr None"
  let ?u = "?t\<lparr>key_prefix_names := {''UI''}\<rparr>"
  have h1: "key_prefixes ?t (prefix_key ''User'' ''id'') = None"
    by (simp add: Table_init_def)
  have h2: "key_prefixes ?u (prefix_key ''User'' ''id'') = None"
    by (simp add: Table_init_def)
  have up: "upper ''U'' = ''U''" "upper ''i'' = ''I''" "upper ''id'' = ''ID''"
    by (simp_all add: upper_def upper_char_def)
  have "\<exists>n<length ''id''. ''UI'' = upper ''U'' @ upper (take (Suc n) ''id'') \<and>
          ''UI'' \<notin> key_prefix_names ?t \<and>
          (\<forall>m<n. upper ''U'' @ upper (take (Suc m) ''id'') \<in> key_prefix_names ?t)"
    by (rule exI [of _ 0]) (simp add: up Table_init_def)
  then have r1: "fst (get_prefix ?t ''User'' ''id'') = Inr (Some ''UI'')"
    using get_prefix_candidates [OF h1, of "''UI''"] by simp
  have "\<exists>n<length ''id''. ''UID'' = upper ''U'' @ upper (take (Suc n) ''id'') \<and>
          ''UID'' \<notin> key_prefix_names ?u \<and>
          (\<forall>m<n. upper ''U'' @ upper (take (Suc m) ''id'') \<in> key_prefix_names ?u)"
    by (rule exI [of _ 1]) (simp add: up Table_init_def)
  then have r2: "fst (get_prefix ?u ''User'' ''id'') = Inr (Some ''UID'')"
    using get_prefix_candidates [OF h2, of "''UID''"] by simp
  from h1 r1 h2 r2 show ?thesis by blast
qed

text \<open>The first assignment for \<^verbatim>\<open>"User"\<close>, \<^verbatim>\<open>"id"\<close> on a fresh table is not \<^verbatim>\<open>"U"\<close>.\<close>

theorem get_prefix_type_initial_counterexample:
  "fst (get_prefix (Table_init ''t'' PyStr None) ''User'' ''id'') \<noteq> Inr (Some ''U'')"
  by (simp add: get_prefix_def Table_init_def prefix_key_def upper_def upper_char_def)

text \<open>
  C7, as the code has it. When the pair has no recorded prefix, the type name is not
  empty and every candidate is already issued, \<^verbatim>\<open>get_prefix\<close> returns \<^verbatim>\<open>None\<close>, raises
  nothing and leaves the table as it was.
\<close>

theorem get_prefix_exhausted:
  assumes "key_prefixes t (prefix_key item attr) = None" and "item \<noteq> []"
    and "\<forall>n<length attr. upper [hd item] @ upper (take (Suc n) attr) \<in> key_prefix_names t"
  shows "get_prefix t item attr = (Inr None, t)"
  using assms find_prefix_None_iff [of "key_prefix_names t" "upper [hd item]" attr]
  by (cases item) (simp_all add: get_prefix_def)

theorem get_prefix_exhausted_witness:
  "key_prefixes ((Table_init ''t'' PyStr None)\<lparr>key_prefix_names := {''UI'', ''UID''}\<rparr>)
      (prefix_key ''User'' ''id'') = None \<and> ''User'' \<noteq> [] \<and>
   get_prefix ((Table_init ''t'' PyStr None)\<lparr>key_prefix_names := {''UI'', ''UID''}\<rparr>)
      ''User'' ''id'' =
     (Inr None, (Table_init ''t'' PyStr None)\<lparr>key_prefix_names := {''UI'', ''UID''}\<rparr>)"
proof -
  let ?u = "(Table_init ''t'' PyStr None)\<lparr>key_prefix_names := {''UI'', ''UID''}\<rparr>"
  have h1: "key_prefixes ?u (prefix_key ''User'' ''id'') = None"
    by (simp add: Table_init_def)
  have h2: "''User'' \<noteq> []" by simp
  have h3: "\<forall>n<length ''id''. upper [hd ''User''] @ upper (take (Suc n) ''id'')
              \<in> key_prefix_names ?u"
    by (simp add: All_less_Suc upper_def upper_char_def Table_init_def)
  from h1 h2 get_prefix_exhausted [OF h1 h2 h3] show ?thesis by simp
qed

text \<open>
  A pair that has its prefix recorded gets it again, although by then every one of
  its candidates is issued: after \<^verbatim>\<open>"User"\<close>, \<^verbatim>\<open>"x"\<close> received \<^verbatim>\<open>"UX"\<close>, its only
  candidate, the next call returns \<^verbatim>\<open>"UX"\<close> and not \<^verbatim>\<open>None\<close>.
\<close>

theorem get_prefix_exhausted_counterexample:
  "upper [hd ''User''] @ upper (take 1 ''x'')
     \<in> key_prefix_names (snd (get_prefix (Table_init ''t'' PyStr None) ''User'' ''x'')) \<and>
   length ''x'' = 1 \<and>
   fst (get_prefix (snd (get_prefix (Table_init ''t'' PyStr None) ''User'' ''x'')) ''User'' ''x'')
     = Inr (Some ''UX'')"
  by (simp add: get_prefix_def Table_init_def prefix_key_def upper_def upper_char_def)

section \<open>The registry over sequences of assignments\<close>

lemma registry_inv_init: "registry_inv (Table_init n pkt skt)"
  by (simp add: registry_inv_def Table_init_def)

lemma find_prefix_fresh: "find_prefix names p cs = Some q \<Longrightarrow> q \<notin> names"
  by (auto simp add: find_prefix_Some_iff)

lemma get_prefix_inv:
  assumes "registry_inv t"
  shows "registry_inv (snd (get_prefix t item attr))"
proof (cases "key_prefixes t (prefix_key item attr)")
  case (Some p)
  with assms show ?thesis by (simp add: get_prefix_def)
next
  case None
  show ?thesis
  proof (cases item)
    case Nil
    with None assms show ?thesis by (simp add: get_prefix_def)
  next
    case (Cons i0 rest)
    show ?thesis
    proof (cases "find_prefix (key_prefix_names t) (upper [i0]) attr")
      case None
      with \<open>key_prefixes t (prefix_key item attr) = None\<close> Cons assms show ?thesis
        by (simp add: get_prefix_def)
    next
      case (Some q)
      then have "q \<notin> key_prefix_names t" by (rule find_prefix_fresh)
      with assms have "\<forall>k. key_prefixes t k \<noteq> Some q"
        by (auto simp add: registry_inv_def)
      with assms Some \<open>key_prefixes t (prefix_key item attr) = None\<close> Cons show ?thesis
        by (auto simp add: get_prefix_def registry_inv_def)
    qed
  qed
qed

lemma get_prefix_mono:
  "key_prefixes t k = Some p \<Longrightarrow> key_prefixes (snd (get_prefix t item attr)) k = Some p"
  by (auto simp add: get_prefix_def split: option.splits list.splits)

lemma get_prefix_calls_inv: "registry_inv t \<Longrightarrow> registry_inv (get_prefix_calls t cs)"
  by (induction t cs rule: get_prefix_calls.induct) (simp_all add: get_prefix_inv)

lemma get_prefix_calls_mono:
  "key_prefixes t k = Some p \<Longrightarrow> key_prefixes (get_prefix_calls t cs) k = Some p"
  by (induction t cs rule: get_prefix_calls.induct) (simp_all add: get_prefix_mono)

lemma get_prefix_records:
  "get_prefix t item attr = (Inr (Some p), t1) \<Longrightarrow> key_prefixes t1 (prefix_key item attr) = Some p"
  by (auto simp add: get_prefix_def split: option.splits list.splits)

lemma get_prefix_memo:
  "key_prefixes t (prefix_key item attr) = Some p \<Longrightarrow> get_prefix t item attr = (Inr (Some p), t)"
  by (simp add: get_prefix_def)

lemma get_prefix_same_prefix:
  assumes "registry_inv t" and "key_prefixes t k = Some p"
    and "fst (get_prefix t item attr) = Inr (Some p)"
  shows "prefix_key item attr = k"
proof (cases "key_prefixes t (prefix_key item attr)")
  case (Some q)
  with assms(3) have "q = p" by (simp add: get_prefix_def)
  with Some assms(1,2) show ?thesis by (auto simp add: registry_inv_def)
next
  case None
  from assms(1,2) have "p \<in> key_prefix_names t" by (auto simp add: registry_inv_def)
  moreover from None assms(3) have "p \<notin> key_prefix_names t"
    by (auto simp add: get_prefix_def split: list.splits option.splits dest: find_prefix_fresh)
  ultimately show ?thesis by simp
qed

lemma prefix_key_inj:
  assumes "CHR ''.'' \<notin> set item" and "CHR ''.'' \<notin> set item'"
    and "prefix_key item attr = prefix_key item' attr'"
  shows "item = item' \<and> attr = attr'"
proof -
  have tw: "takeWhile (\<lambda>c. c \<noteq> CHR ''.'') (prefix_key i a) = i" if "CHR ''.'' \<notin> set i" for i a
    using that by (auto simp add: prefix_key_def takeWhile_tail)
  from assms have "item = item'" using tw [of item attr] tw [of item' attr'] by simp
  with assms(3) show ?thesis by (simp add: prefix_key_def)
qed

text \<open>
  C4, as the code has it. On a table that started fresh and was changed by prefix
  assignments only, once a pair has received the prefix \<open>p\<close>, every later assignment
  for that pair returns \<open>p\<close> and leaves the table unchanged, and every later
  assignment that returns \<open>p\<close> is for a pair with the same dictionary key
  \<^verbatim>\<open>"<type_name>.<attribute>"\<close>; that is the same pair when the type names contain no
  dot.
\<close>

theorem prefix_assignment_injective_memoized:
  assumes "t = get_prefix_calls (Table_init n pkt skt) before"
    and "get_prefix t item attr = (Inr (Some p), t1)"
    and "t2 = get_prefix_calls t1 after"
  shows "get_prefix t2 item attr = (Inr (Some p), t2) \<and>
     (\<forall>item' attr'. fst (get_prefix t2 item' attr') = Inr (Some p) \<longrightarrow>
        prefix_key item' attr' = prefix_key item attr \<and>
        (CHR ''.'' \<notin> set item \<and> CHR ''.'' \<notin> set item' \<longrightarrow> item' = item \<and> attr' = attr))"
proof -
  have "registry_inv t"
    unfolding assms(1) by (rule get_prefix_calls_inv) (rule registry_inv_init)
  then have "registry_inv (snd (get_prefix t item attr))" by (rule get_prefix_inv)
  with assms(2) have "registry_inv t1" by simp
  then have inv2: "registry_inv t2" unfolding assms(3) by (rule get_prefix_calls_inv)
  from assms(2) have "key_prefixes t1 (prefix_key item attr) = Some p" by (rule get_prefix_records)
  then have rec2: "key_prefixes t2 (prefix_key item attr) = Some p"
    unfolding assms(3) by (rule get_prefix_calls_mono)
  then have memo: "get_prefix t2 item attr = (Inr (Some p), t2)" by (rule get_prefix_memo)
  have "prefix_key item' attr' = prefix_key item attr \<and>
        (CHR ''.'' \<notin> set item \<and> CHR ''.'' \<notin> set item' \<longrightarrow> item' = item \<and> attr' = attr)"
    if "fst (get_prefix t2 item' attr') = Inr (Some p)" for item' attr'
  proof -
    from inv2 rec2 that have "prefix_key item' attr' = prefix_key item attr"
      by (rule get_prefix_same_prefix)
    then show ?thesis using prefix_key_inj [of item' item attr' attr] by blast
  qed
  with memo show ?thesis by blast
qed

theorem prefix_assignment_injective_memoized_witness:
  "fst (get_prefix (snd (get_prefix (Table_init ''t'' PyStr None) ''User'' ''id'')) ''User'' ''id'')
     = Inr (Some ''UI'') \<and>
   fst (get_prefix (snd (get_prefix (Table_init ''t'' PyStr None) ''User'' ''id'')) ''Unit'' ''id'')
     = Inr (Some ''UID'')"
proof -
  let ?t = "get_prefix_calls (Table_init ''t'' PyStr None) []"
  let ?t1 = "snd (get_prefix (Table_init ''t'' PyStr None) ''User'' ''id'')"
  have a: "get_prefix ?t ''User'' ''id'' = (Inr (Some ''UI''), ?t1)"
    by (simp add: get_prefix_def Table_init_def prefix_key_def upper_def upper_char_def)
  have b: "?t1 = get_prefix_calls ?t1 []" by simp
  have "get_prefix ?t1 ''User'' ''id'' = (Inr (Some ''UI''), ?t1)"
    using prefix_assignment_injective_memoized [OF refl a b] by blast
  moreover have "fst (get_prefix ?t1 ''Unit'' ''id'') = Inr (Some ''UID'')"
    by (simp add: get_prefix_def Table_init_def prefix_key_def upper_def upper_char_def)
  ultimately show ?thesis by simp
qed

text \<open>
  Two distinct pairs with one dictionary key share a prefix: \<^verbatim>\<open>"A.B"\<close>, \<^verbatim>\<open>"C"\<close> and
  \<^verbatim>\<open>"A"\<close>, \<^verbatim>\<open>"B.C"\<close> are both recorded under \<^verbatim>\<open>"A.B.C"\<close>.
\<close>

theorem prefix_assignment_pairs_counterexample:
  "(''A.B'', ''C'') \<noteq> (''A'', ''B.C'') \<and>
   fst (get_prefix (Table_init ''t'' PyStr None) ''A.B'' ''C'') = Inr (Some ''AC'') \<and>
   fst (get_prefix (snd (get_prefix (Table_init ''t'' PyStr None) ''A.B'' ''C'')) ''A'' ''B.C'')
     = Inr (Some ''AC'')"
  by (simp add: get_prefix_def Table_init_def prefix_key_def upper_def upper_char_def)

section \<open>Construction\<close>

lemmas eval_defs = Item_init_def validate_keys_def resolve_prefix_def get_prefix_def Table_init_def
  prefix_key_def upper_def upper_char_def Key_def User_def required_def has_attr_def
  optional_attr_def

lemma get_prefix_error:
  "get_prefix t item a = (Inl e, t') \<Longrightarrow> item = [] \<and> e = IndexError \<and> t' = t"
  by (auto simp add: get_prefix_def split: option.splits list.splits)

lemma get_prefix_empty_name: "snd (get_prefix t [] a) = t"
  by (simp add: get_prefix_def split: option.splits)

lemma get_prefix_total:
  "item \<noteq> [] \<Longrightarrow> \<exists>p t'. get_prefix t item a = (Inr p, t')"
  by (cases item) (auto simp add: get_prefix_def split: option.splits)

lemma resolve_prefix_error:
  "resolve_prefix t item k = (Inl e, t') \<Longrightarrow> item = [] \<and> e = IndexError \<and> t' = t"
  by (auto simp add: resolve_prefix_def split: if_splits prod.splits sum.splits dest: get_prefix_error)

lemma resolve_prefix_empty_name: "snd (resolve_prefix t [] k) = t"
  using get_prefix_empty_name [of t "k_attr k"]
  by (auto simp add: resolve_prefix_def split: prod.splits sum.splits)

lemma resolve_prefix_total:
  "item \<noteq> [] \<Longrightarrow> \<exists>pv t'. resolve_prefix t item k = (Inr (k\<lparr>k_prefix_value := pv\<rparr>), t')"
proof (cases "k_prefix_value k = None")
  case True
  assume "item \<noteq> []"
  then obtain p t' where "get_prefix t item (k_attr k) = (Inr p, t')"
    using get_prefix_total by blast
  with True show ?thesis by (auto simp add: resolve_prefix_def)
next
  case False
  then have "resolve_prefix t item k = (Inr (k\<lparr>k_prefix_value := k_prefix_value k\<rparr>), t)"
    by (auto simp add: resolve_prefix_def)
  then show ?thesis by blast
qed

lemma validate_keys_None_iff:
  "validate_keys m pk sk t = None \<longleftrightarrow>
     has_attr m (k_attr pk) \<and> \<not> optional_attr m (k_attr pk) \<and>
     (\<forall>s. sk = Some s \<longrightarrow> has_attr m (k_attr s) \<and> \<not> optional_attr m (k_attr s)) \<and>
     \<not> (k_prefix pk \<and> partition_key_type t \<noteq> PyStr) \<and>
     (\<forall>s. sk = Some s \<longrightarrow> \<not> (k_prefix s \<and> sort_key_type t \<noteq> Some PyStr))"
  by (auto simp add: validate_keys_def has_attr_def optional_attr_def split: option.splits)

lemma Item_init_validated:
  assumes "validate_keys m pk sk t = None" and "model_name m \<noteq> []"
  shows "\<exists>it t' pv. Item_init m (Some pk) sk t = (Inr it, t') \<and>
     item_pk it = pk\<lparr>k_prefix_value := pv\<rparr> \<and>
     map_option k_attr (item_sk it) = map_option k_attr sk \<and> item_model it = m \<and>
     item_table it = t'"
proof -
  from assms(2) obtain pv t1 where
    r1: "resolve_prefix t (model_name m) pk = (Inr (pk\<lparr>k_prefix_value := pv\<rparr>), t1)"
    using resolve_prefix_total by blast
  show ?thesis
  proof (cases sk)
    case None
    with assms(1) r1 show ?thesis by (auto simp add: Item_init_def)
  next
    case (Some s)
    from assms(2) obtain sv t2 where
      "resolve_prefix t1 (model_name m) s = (Inr (s\<lparr>k_prefix_value := sv\<rparr>), t2)"
      using resolve_prefix_total by blast
    with Some assms(1) r1 show ?thesis by (auto simp add: Item_init_def)
  qed
qed

text \<open>
  C5, as the code has it. The outcome of \<^verbatim>\<open>Item.__init__\<close>, case by case in the
  order of the checks. With no
  \<^verbatim>\<open>pk\<close> argument the first declared field is the partition key. Then: an unknown
  \<^verbatim>\<open>pk\<close> attribute raises \<^verbatim>\<open>AttributeError\<close>; an optional one raises \<^verbatim>\<open>TypeError\<close>; the
  same two for a given \<^verbatim>\<open>sk\<close>; a \<^verbatim>\<open>pk\<close> with prefix on a table whose partition key type
  is not \<^verbatim>\<open>str\<close> raises \<^verbatim>\<open>ValueError\<close>; the same for \<^verbatim>\<open>sk\<close> and the sort key type; and
  otherwise construction succeeds when the name of the model class is not empty.
  Every error leaves the table as it was.
\<close>

theorem Item_init_validation_order:
  fixes m :: shape and pk :: key and sk :: "key option" and t :: table
  defines "r \<equiv> Item_init m (Some pk) sk t"
    and "known_pk \<equiv> has_attr m (k_attr pk)"
    and "opt_pk \<equiv> optional_attr m (k_attr pk)"
    and "known_sk \<equiv> (case sk of None \<Rightarrow> True | Some s \<Rightarrow> has_attr m (k_attr s))"
    and "opt_sk \<equiv> (case sk of None \<Rightarrow> False | Some s \<Rightarrow> optional_attr m (k_attr s))"
    and "bad_pk \<equiv> k_prefix pk \<and> partition_key_type t \<noteq> PyStr"
    and "bad_sk \<equiv>
      (case sk of None \<Rightarrow> False | Some s \<Rightarrow> k_prefix s \<and> sort_key_type t \<noteq> Some PyStr)"
  shows
    "(\<forall>a f fs. model_fields m = (a, f) # fs \<longrightarrow>
        Item_init m None sk t = Item_init m (Some (Key a)) sk t) \<and>
     (\<not> known_pk \<longrightarrow>
        r = (Inl (AttributeError (k_attr pk)), t)) \<and>
     (known_pk \<and> opt_pk \<longrightarrow>
        r = (Inl (TypeError (k_attr pk)), t)) \<and>
     (known_pk \<and> \<not> opt_pk \<and> \<not> known_sk \<longrightarrow>
        r = (Inl (AttributeError (k_attr (the sk))), t)) \<and>
     (known_pk \<and> \<not> opt_pk \<and> known_sk \<and> opt_sk \<longrightarrow>
        r = (Inl (TypeError (k_attr (the sk))), t)) \<and>
     (known_pk \<and> \<not> opt_pk \<and> known_sk \<and> \<not> opt_sk \<and> bad_pk \<longrightarrow>
        r = (Inl (ValueError ''pk''), t)) \<and>
     (known_pk \<and> \<not> opt_pk \<and> known_sk \<and> \<not> opt_sk \<and> \<not> bad_pk \<and> bad_sk \<longrightarrow>
        r = (Inl (ValueError ''sk''), t)) \<and>
     (known_pk \<and> \<not> opt_pk \<and> known_sk \<and> \<not> opt_sk \<and> \<not> bad_pk \<and> \<not> bad_sk \<and>
      model_name m \<noteq> [] \<longrightarrow>
        (\<exists>it t' pv. r = (Inr it, t') \<and> item_pk it = pk\<lparr>k_prefix_value := pv\<rparr> \<and>
           map_option k_attr (item_sk it) = map_option k_attr sk \<and> item_model it = m \<and>
           item_table it = t'))"
proof -
  have dflt: "\<forall>a f fs. model_fields m = (a, f) # fs \<longrightarrow>
        Item_init m None sk t = Item_init m (Some (Key a)) sk t"
    by (simp add: Item_init_def)
  have e1: "\<not> known_pk \<longrightarrow>
        r = (Inl (AttributeError (k_attr pk)), t)"
    by (auto simp add: r_def known_pk_def opt_pk_def known_sk_def opt_sk_def bad_pk_def bad_sk_def
        Item_init_def validate_keys_def has_attr_def optional_attr_def split: option.splits)
  have e2: "known_pk \<and> opt_pk \<longrightarrow>
        r = (Inl (TypeError (k_attr pk)), t)"
    by (auto simp add: r_def known_pk_def opt_pk_def known_sk_def opt_sk_def bad_pk_def bad_sk_def
        Item_init_def validate_keys_def has_attr_def optional_attr_def split: option.splits)
  have e3: "known_pk \<and> \<not> opt_pk \<and> \<not> known_sk \<longrightarrow>
        r = (Inl (AttributeError (k_attr (the sk))), t)"
    by (auto simp add: r_def known_pk_def opt_pk_def known_sk_def opt_sk_def bad_pk_def bad_sk_def
        Item_init_def validate_keys_def has_attr_def optional_attr_def split: option.splits)
  have e4: "known_pk \<and> \<not> opt_pk \<and> known_sk \<and> opt_sk \<longrightarrow>
        r = (Inl (TypeError (k_attr (the sk))), t)"
    by (auto simp add: r_def known_pk_def opt_pk_def known_sk_def opt_sk_def bad_pk_def bad_sk_def
        Item_init_def validate_keys_def has_attr_def optional_attr_def split: option.splits)
  have e5: "known_pk \<and> \<not> opt_pk \<and> known_sk \<and> \<not> opt_sk \<and> bad_pk \<longrightarrow>
        r = (Inl (ValueError ''pk''), t)"
    by (auto simp add: r_def known_pk_def opt_pk_def known_sk_def opt_sk_def bad_pk_def bad_sk_def
        Item_init_def validate_keys_def has_attr_def optional_attr_def split: option.splits)
  have e6: "known_pk \<and> \<not> opt_pk \<and> known_sk \<and> \<not> opt_sk \<and> \<not> bad_pk \<and> bad_sk \<longrightarrow>
        r = (Inl (ValueError ''sk''), t)"
    by (auto simp add: r_def known_pk_def opt_pk_def known_sk_def opt_sk_def bad_pk_def bad_sk_def
        Item_init_def validate_keys_def has_attr_def optional_attr_def split: option.splits)
  have ok: "known_pk \<and> \<not> opt_pk \<and> known_sk \<and> \<not> opt_sk \<and> \<not> bad_pk \<and> \<not> bad_sk \<and>
      model_name m \<noteq> [] \<longrightarrow>
        (\<exists>it t' pv. r = (Inr it, t') \<and> item_pk it = pk\<lparr>k_prefix_value := pv\<rparr> \<and>
           map_option k_attr (item_sk it) = map_option k_attr sk \<and> item_model it = m \<and>
           item_table it = t')"
  proof
    assume h: "known_pk \<and> \<not> opt_pk \<and> known_sk \<and> \<not> opt_sk \<and> \<not> bad_pk \<and> \<not> bad_sk \<and>
      model_name m \<noteq> []"
    then have "validate_keys m pk sk t = None"
      unfolding validate_keys_None_iff
      by (auto simp add: known_pk_def opt_pk_def known_sk_def opt_sk_def bad_pk_def bad_sk_def)
    with h show "(\<exists>it t' pv. r = (Inr it, t') \<and> item_pk it = pk\<lparr>k_prefix_value := pv\<rparr> \<and>
           map_option k_attr (item_sk it) = map_option k_attr sk \<and> item_model it = m \<and>
           item_table it = t')"
      unfolding r_def using Item_init_validated [of m pk sk t] by blast
  qed
  from dflt e1 e2 e3 e4 e5 e6 ok show ?thesis by blast
qed

theorem Item_init_validation_order_witness:
  "Item_init User None None (Table_init ''t'' PyStr None)
     = Item_init User (Some (Key ''id'')) None (Table_init ''t'' PyStr None) \<and>
   Item_init User (Some (Key ''nope'')) None (Table_init ''t'' PyStr None)
     = (Inl (AttributeError ''nope''), Table_init ''t'' PyStr None) \<and>
   Item_init User (Some (Key ''email'')) None (Table_init ''t'' PyStr None)
     = (Inl (TypeError ''email''), Table_init ''t'' PyStr None) \<and>
   Item_init User (Some (Key ''id'')) (Some (Key ''nope'')) (Table_init ''t'' PyStr (Some PyStr))
     = (Inl (AttributeError ''nope''), Table_init ''t'' PyStr (Some PyStr)) \<and>
   Item_init User (Some (Key ''id'')) (Some (Key ''email'')) (Table_init ''t'' PyStr (Some PyStr))
     = (Inl (TypeError ''email''), Table_init ''t'' PyStr (Some PyStr)) \<and>
   Item_init User (Some (Key ''id'')) (Some (Key ''age'')) (Table_init ''t'' PyInt (Some PyStr))
     = (Inl (ValueError ''pk''), Table_init ''t'' PyInt (Some PyStr)) \<and>
   Item_init User (Some (Key ''id'')) (Some (Key ''age'')) (Table_init ''t'' PyStr None)
     = (Inl (ValueError ''sk''), Table_init ''t'' PyStr None) \<and>
   (\<exists>it t' pv. Item_init User (Some (Key ''id'')) (Some (Key ''age'')) (Table_init ''t'' PyStr (Some PyStr))
       = (Inr it, t') \<and> item_pk it = (Key ''id'')\<lparr>k_prefix_value := pv\<rparr> \<and>
      map_option k_attr (item_sk it) = Some ''age'' \<and> item_model it = User \<and> item_table it = t')"
proof -
  have f: "model_fields User = (''id'', required (TyClass ''str'')) #
      [(''email'', \<lparr>f_annotation = TyUnion [TyClass ''str'', TyNone], f_default = Some PNone\<rparr>),
       (''age'', required (TyClass ''int''))]"
    by (simp add: User_def)
  have c0: "Item_init User None None (Table_init ''t'' PyStr None)
     = Item_init User (Some (Key ''id'')) None (Table_init ''t'' PyStr None)"
    using Item_init_validation_order [of User None "Table_init ''t'' PyStr None"] f by blast
  have c1: "Item_init User (Some (Key ''nope'')) None (Table_init ''t'' PyStr None)
     = (Inl (AttributeError ''nope''), Table_init ''t'' PyStr None)"
    using Item_init_validation_order [of User None "Table_init ''t'' PyStr None" "Key ''nope''"]
    by (simp add: has_attr_def User_def Key_def)
  have c2: "Item_init User (Some (Key ''email'')) None (Table_init ''t'' PyStr None)
     = (Inl (TypeError ''email''), Table_init ''t'' PyStr None)"
    using Item_init_validation_order [of User None "Table_init ''t'' PyStr None" "Key ''email''"]
    by (simp add: has_attr_def optional_attr_def User_def Key_def)
  have c3: "Item_init User (Some (Key ''id'')) (Some (Key ''nope'')) (Table_init ''t'' PyStr (Some PyStr))
     = (Inl (AttributeError ''nope''), Table_init ''t'' PyStr (Some PyStr))"
    using Item_init_validation_order [of User "Some (Key ''nope'')"
        "Table_init ''t'' PyStr (Some PyStr)" "Key ''id''"]
    by (simp add: has_attr_def optional_attr_def User_def Key_def required_def)
  have c4: "Item_init User (Some (Key ''id'')) (Some (Key ''email'')) (Table_init ''t'' PyStr (Some PyStr))
     = (Inl (TypeError ''email''), Table_init ''t'' PyStr (Some PyStr))"
    using Item_init_validation_order [of User "Some (Key ''email'')"
        "Table_init ''t'' PyStr (Some PyStr)" "Key ''id''"]
    by (simp add: has_attr_def optional_attr_def User_def Key_def required_def)
  have c5: "Item_init User (Some (Key ''id'')) (Some (Key ''age'')) (Table_init ''t'' PyInt (Some PyStr))
     = (Inl (ValueError ''pk''), Table_init ''t'' PyInt (Some PyStr))"
    using Item_init_validation_order [of User "Some (Key ''age'')"
        "Table_init ''t'' PyInt (Some PyStr)" "Key ''id''"]
    by (simp add: has_attr_def optional_attr_def User_def Key_def required_def Table_init_def)
  have c6: "Item_init User (Some (Key ''id'')) (Some (Key ''age'')) (Table_init ''t'' PyStr None)
     = (Inl (ValueError ''sk''), Table_init ''t'' PyStr None)"
    using Item_init_validation_order [of User "Some (Key ''age'')"
        "Table_init ''t'' PyStr None" "Key ''id''"]
    by (simp add: has_attr_def optional_attr_def User_def Key_def required_def Table_init_def)
  have c7: "\<exists>it t' pv. Item_init User (Some (Key ''id'')) (Some (Key ''age'')) (Table_init ''t'' PyStr (Some PyStr))
       = (Inr it, t') \<and> item_pk it = (Key ''id'')\<lparr>k_prefix_value := pv\<rparr> \<and>
      map_option k_attr (item_sk it) = Some ''age'' \<and> item_model it = User \<and> item_table it = t'"
    using Item_init_validation_order [of User "Some (Key ''age'')"
        "Table_init ''t'' PyStr (Some PyStr)" "Key ''id''"]
    by (simp add: has_attr_def optional_attr_def User_def Key_def required_def Table_init_def)
  from c0 c1 c2 c3 c4 c5 c6 c7 show ?thesis by blast
qed

text \<open>
  Present, required and compatible with the prefix is not enough: for the model
  class with the empty name, \<^verbatim>\<open>get_prefix\<close> reads \<^verbatim>\<open>item[0]\<close> of the empty string and
  construction raises \<^verbatim>\<open>IndexError\<close>.
\<close>

theorem Item_init_empty_name_counterexample:
  "has_attr Unnamed (k_attr (Key ''id'')) \<and> \<not> optional_attr Unnamed (k_attr (Key ''id'')) \<and>
   \<not> (k_prefix (Key ''id'') \<and> partition_key_type (Table_init ''t'' PyStr None) \<noteq> PyStr) \<and>
   Item_init Unnamed (Some (Key ''id'')) None (Table_init ''t'' PyStr None)
     = (Inl IndexError, Table_init ''t'' PyStr None) \<and>
   Item_init Unnamed None None (Table_init ''t'' PyStr None)
     = (Inl IndexError, Table_init ''t'' PyStr None)"
  by (simp add: Unnamed_def Item_init_def validate_keys_def resolve_prefix_def get_prefix_def
      Table_init_def prefix_key_def Key_def required_def has_attr_def optional_attr_def)

text \<open>
  C9. Whenever \<^verbatim>\<open>Item.__init__\<close> raises, the table is as it was before the call: the
  checks come before any prefix assignment, and an assignment that raises has
  changed nothing.
\<close>

theorem Item_init_atomic:
  assumes "Item_init m pk_arg sk_arg t = (Inl e, t')"
  shows "t' = t"
proof -
  have two: "t2 = t"
    if a: "resolve_prefix t (model_name m) pk = (Inr pk', t1)"
      and b: "resolve_prefix t1 (model_name m) s = (Inl e, t2)" for pk pk' t1 s t2
  proof -
    from b have n: "model_name m = []" and "t2 = t1" by (auto dest: resolve_prefix_error)
    moreover from a n have "t1 = t" using resolve_prefix_empty_name [of t pk] by simp
    ultimately show ?thesis by simp
  qed
  from assms show ?thesis
    by (auto simp add: Item_init_def split: option.splits list.splits sum.splits prod.splits
        dest: resolve_prefix_error two)
qed

theorem Item_init_atomic_witness:
  "fst (Item_init User (Some (Key ''nope'')) None
          (snd (Item_init User None None (Table_init ''t'' PyStr None))))
     = Inl (AttributeError ''nope'') \<and>
   snd (Item_init User (Some (Key ''nope'')) None
          (snd (Item_init User None None (Table_init ''t'' PyStr None))))
     = snd (Item_init User None None (Table_init ''t'' PyStr None)) \<and>
   key_prefix_names (snd (Item_init User None None (Table_init ''t'' PyStr None))) = {''UI''}"
proof -
  let ?t1 = "snd (Item_init User None None (Table_init ''t'' PyStr None))"
  have a: "fst (Item_init User (Some (Key ''nope'')) None ?t1) = Inl (AttributeError ''nope'')"
    by (simp add: eval_defs)
  then have "Item_init User (Some (Key ''nope'')) None ?t1
      = (Inl (AttributeError ''nope''), snd (Item_init User (Some (Key ''nope'')) None ?t1))"
    by (metis prod.collapse)
  then have b: "snd (Item_init User (Some (Key ''nope'')) None ?t1) = ?t1"
    by (rule Item_init_atomic)
  have c: "key_prefix_names ?t1 = {''UI''}"
    by (simp add: eval_defs)
  from a b c show ?thesis by blast
qed

section \<open>Key composition, put and get\<close>

lemmas item_defs = put_item_Item_def put_item_def get_item_Key_def get_item_def key_value_def
  getattr_def dict_update_def model_dump_def model_validate_def store_key_def store_put_item_def
  store_get_item_def call_type_def string_of_int_def digit_char_def

lemma user_item_eq:
  "Item_init User None None (Table_init ''t'' PyStr None) = (Inr user_item, item_table user_item)"
  by (simp add: user_item_def eval_defs)

lemma key_value_cases:
  "key_value rt it (Some k) v =
     (if k_prefix k
      then Inr (PStr ((case k_prefix_value k of None \<Rightarrow> ''None'' | Some p \<Rightarrow> p) @ k_seperator k @ py_str v))
      else call_type rt (partition_key_type (item_table it)) v)"
  by (simp add: key_value_def)

text \<open>
  C2. With a prefix the composed key is prefix, separator and the printed value, as
  \<open>key_value_cases\<close> shows. Without one the value goes through the table's
  \<^verbatim>\<open>partition_key_type\<close> for the sort key as well: on a table with a \<^verbatim>\<open>str\<close> partition key
  and an \<^verbatim>\<open>int\<close> sort key, the sort key value \<^verbatim>\<open>5\<close> of an \<^verbatim>\<open>Event\<close> is composed to the
  string \<^verbatim>\<open>"5"\<close>, where the sort key type would give the integer \<^verbatim>\<open>5\<close>.
\<close>

theorem key_value_sort_key_uses_partition_type:
  "fst (Item_init Event (Some (Key ''id'')) (Some ((Key ''n'')\<lparr>k_prefix := False\<rparr>))
          (Table_init ''t'' PyStr (Some PyInt))) = Inr event_item \<and>
   sort_key_type (item_table event_item) = Some PyInt \<and>
   key_value rt event_item (item_sk event_item) (PInt 5) = Inr (PStr ''5'') \<and>
   call_type rt PyInt (PInt 5) = Inr (PInt 5) \<and>
   put_item_Item rt event_item [(''id'', PStr ''a''), (''n'', PInt 5)]
     = Inr [(''pk'', PStr ''EI#a''), (''sk'', PStr ''5''), (''id'', PStr ''a''), (''n'', PInt 5)]"
  by (simp add: event_item_def Event_def eval_defs item_defs)

lemma update_fresh: "k \<notin> fst ` set al \<Longrightarrow> AList.update k v al = al @ [(k, v)]"
  by (induction al) auto

lemma dict_update_fresh:
  "distinct (map fst e) \<Longrightarrow> fst ` set d \<inter> fst ` set e = {} \<Longrightarrow> dict_update d e = d @ e"
proof (induction e arbitrary: d)
  case Nil
  then show ?case by (simp add: dict_update_def)
next
  case (Cons x e)
  obtain k v where x: "x = (k, v)" by (cases x)
  from Cons.prems x have k: "k \<notin> fst ` set d" by auto
  from Cons.prems have "distinct (map fst e)" by simp
  moreover from Cons.prems x have "fst ` set (d @ [(k, v)]) \<inter> fst ` set e = {}" by auto
  ultimately have "dict_update (d @ [(k, v)]) e = (d @ [(k, v)]) @ e" by (rule Cons.IH)
  with k x show ?case by (simp add: dict_update_def update_fresh)
qed

lemma validate_fields_present:
  "map fst inst = map fst fs \<Longrightarrow> (\<forall>(n, v) \<in> set inst. map_of d n = Some v) \<Longrightarrow>
     validate_fields fs d = Inr inst"
proof (induction fs arbitrary: inst)
  case Nil
  then show ?case by simp
next
  case (Cons x fs)
  obtain n f where x: "x = (n, f)" by (cases x)
  from Cons.prems(1) x obtain v rest where inst: "inst = (n, v) # rest" and r: "map fst rest = map fst fs"
    by (cases inst) auto
  from Cons.prems(2) inst have "map_of d n = Some v" and "\<forall>(n, v) \<in> set rest. map_of d n = Some v"
    by auto
  with Cons.IH [OF r] x inst show ?case by simp
qed

lemma get_prefix_key_types:
  "partition_key_type (snd (get_prefix t i a)) = partition_key_type t \<and>
   sort_key_type (snd (get_prefix t i a)) = sort_key_type t"
  by (simp add: get_prefix_def split: option.splits list.splits)

lemma resolve_prefix_result:
  assumes "resolve_prefix t i k = (Inr k', t')"
  shows "k_attr k' = k_attr k \<and> k_prefix k' = k_prefix k \<and> k_seperator k' = k_seperator k \<and>
         partition_key_type t' = partition_key_type t \<and> sort_key_type t' = sort_key_type t"
proof (cases "k_prefix_value k = None")
  case True
  with assms obtain p where "get_prefix t i (k_attr k) = (Inr p, t')" and "k' = k\<lparr>k_prefix_value := p\<rparr>"
    by (auto simp add: resolve_prefix_def split: prod.splits sum.splits)
  then show ?thesis using get_prefix_key_types [of t i "k_attr k"] by simp
next
  case False
  with assms show ?thesis by (auto simp add: resolve_prefix_def)
qed

lemma Item_init_pk_only:
  assumes "Item_init m pk_arg None t = (Inr it, t')"
  shows "item_sk it = None \<and> item_model it = m \<and> has_attr m (k_attr (item_pk it)) \<and>
         sort_key_type (item_table it) = sort_key_type t \<and>
         partition_key_type (item_table it) = partition_key_type t \<and>
         (k_prefix (item_pk it) \<longrightarrow> partition_key_type t = PyStr)"
proof -
  from assms obtain pk pk' where
    v: "validate_keys m pk None t = None" and
    r: "resolve_prefix t (model_name m) pk = (Inr pk', t')" and
    it: "it = \<lparr>item_pk = pk', item_sk = None, item_model = m, item_table = t'\<rparr>"
    by (auto simp add: Item_init_def split: option.splits list.splits sum.splits prod.splits)
  from v have "has_attr m (k_attr pk)" and "\<not> (k_prefix pk \<and> partition_key_type t \<noteq> PyStr)"
    by (simp_all add: validate_keys_None_iff)
  with resolve_prefix_result [OF r] it show ?thesis by simp
qed

lemma put_get_roundtrip:
  assumes init: "Item_init m pk_arg None t = (Inr it, t')"
    and pre: "k_prefix (item_pk it)"
    and nosk: "sort_key_type t = None"
    and conf: "map fst inst = map fst (model_fields m)"
    and dist: "distinct (map fst inst)"
    and nopk: "''pk'' \<notin> fst ` set inst"
  shows "\<exists>pv st'. getattr inst (k_attr (item_pk it)) = Inr pv \<and>
           put_item rt it inst st = Inr st' \<and> get_item rt it pv PNone st' = Inr inst"
proof -
  note facts = Item_init_pk_only [OF init]
  from facts have "k_attr (item_pk it) \<in> fst ` set (model_fields m)"
    by (auto simp add: has_attr_def map_of_eq_None_iff)
  with conf have "k_attr (item_pk it) \<in> fst ` set inst" by (metis set_map)
  then obtain pv where pv: "map_of inst (k_attr (item_pk it)) = Some pv"
    by (metis map_of_eq_None_iff not_Some_eq)
  from pre obtain p where kv: "key_value rt it (Some (item_pk it)) pv = Inr p"
    by (simp add: key_value_def)
  have upd: "dict_update [(''pk'', p)] inst = (''pk'', p) # inst"
    using dict_update_fresh [of inst "[(''pk'', p)]"] dist nopk by simp
  from pv kv facts nosk upd have put: "put_item_Item rt it inst = Inr ((''pk'', p) # inst)"
    by (simp add: put_item_Item_def getattr_def model_dump_def)
  let ?st = "st((p, None) \<mapsto> (''pk'', p) # inst)"
  from put facts nosk have st: "put_item rt it inst st = Inr ?st"
    by (simp add: put_item_def store_put_item_def store_key_def)
  from kv facts nosk have key: "get_item_Key rt it pv PNone = Inr [(''pk'', p)]"
    by (simp add: get_item_Key_def)
  have "\<forall>(n, v) \<in> set inst. map_of ((''pk'', p) # inst) n = Some v"
    using dist nopk by (auto simp add: rev_image_eqI)
  with conf have "validate_fields (model_fields m) ((''pk'', p) # inst) = Inr inst"
    by (rule validate_fields_present)
  with key facts nosk have "get_item rt it pv PNone ?st = Inr inst"
    by (simp add: get_item_def store_get_item_def store_key_def model_validate_def)
  with pv st show ?thesis by (auto simp add: getattr_def)
qed

text \<open>
  C3. \<open>put_get_roundtrip\<close> is the round trip for the shapes that have no field named
  \<^verbatim>\<open>pk\<close>. A field of that name overwrites the composed key in \<^verbatim>\<open>base_item.update\<close>:
  the \<^verbatim>\<open>Account\<close> with \<^verbatim>\<open>pk = "a"\<close> is stored under \<^verbatim>\<open>"a"\<close>, \<^verbatim>\<open>get_item("a")\<close> reads
  under \<^verbatim>\<open>"AP#a"\<close>, finds nothing and fails in validation.
\<close>

theorem put_get_roundtrip_pk_field:
  "fst (Item_init Account None None (Table_init ''t'' PyStr None)) = Inr account_item \<and>
   k_prefix (item_pk account_item) \<and> item_sk account_item = None \<and>
   sort_key_type (item_table account_item) = None \<and>
   put_item_Item rt account_item [(''pk'', PStr ''a''), (''owner'', PStr ''o'')]
     = Inr [(''pk'', PStr ''a''), (''owner'', PStr ''o'')] \<and>
   put_item rt account_item [(''pk'', PStr ''a''), (''owner'', PStr ''o'')] Map.empty
     = Inr [(PStr ''a'', None) \<mapsto> [(''pk'', PStr ''a''), (''owner'', PStr ''o'')]] \<and>
   get_item_Key rt account_item (PStr ''a'') PNone = Inr [(''pk'', PStr ''AP#a'')] \<and>
   get_item rt account_item (PStr ''a'') PNone
      [(PStr ''a'', None) \<mapsto> [(''pk'', PStr ''a''), (''owner'', PStr ''o'')]]
     = Inl ValidationError"
  by (simp add: account_item_def Account_def eval_defs item_defs)

lemma map_of_dict_update:
  "distinct (map fst e) \<Longrightarrow> map_of (dict_update d e) = map_of d ++ map_of e"
proof (induction e arbitrary: d)
  case Nil
  then show ?case by (simp add: dict_update_def)
next
  case (Cons x e)
  obtain k v where x: "x = (k, v)" by (cases x)
  from Cons.prems x have nk: "k \<notin> fst ` set e" and d: "distinct (map fst e)" by auto
  from nk have e: "map_of e k = None" by (simp add: map_of_eq_None_iff)
  have u: "dict_update d (x # e) = dict_update (AList.update k v d) e"
    by (simp add: dict_update_def x)
  have "map_of (dict_update (AList.update k v d) e) = map_of (AList.update k v d) ++ map_of e"
    by (rule Cons.IH [OF d])
  then have "map_of (dict_update d (x # e)) = (map_of d)(k \<mapsto> v) ++ map_of e"
    by (simp only: u update_conv')
  also have "\<dots> = map_of d ++ (map_of e)(k \<mapsto> v)"
    by (rule ext) (auto simp add: map_add_def e split: option.splits)
  also have "\<dots> = map_of d ++ map_of (x # e)"
    by (simp add: x)
  finally show ?case .
qed

lemma put_item_placeholder:
  assumes "item_sk it = None" and "sort_key_type (item_table it) \<noteq> None"
    and "distinct (map fst inst)" and "put_item_Item rt it inst = Inr d"
  shows "map_of d ''sk'' = (case map_of inst ''sk'' of None \<Rightarrow> Some (PStr ''A'') | Some v \<Rightarrow> Some v)"
  using assms
  by (auto simp add: put_item_Item_def model_dump_def map_of_dict_update map_add_def
      split: sum.splits option.splits)

lemma get_item_placeholder:
  assumes "sort_key_type (item_table it) \<noteq> None" and "get_item_Key rt it pk PNone = Inr k"
  shows "map_of k ''sk'' = Some (PStr ''A'')"
  using assms by (auto simp add: get_item_Key_def split: sum.splits)

text \<open>
  C6. By \<open>put_item_placeholder\<close> and \<open>get_item_placeholder\<close>, an item without sort key on
  a table with one sends \<^verbatim>\<open>"A"\<close> in both directions unless the record has a field
  named \<^verbatim>\<open>sk\<close>. For a \<^verbatim>\<open>Doc\<close> with \<^verbatim>\<open>sk = "zzz"\<close>, \<^verbatim>\<open>put_item\<close> sends the sort key
  \<^verbatim>\<open>"zzz"\<close> while \<^verbatim>\<open>get_item\<close> asks for \<^verbatim>\<open>"A"\<close>.
\<close>

theorem put_item_placeholder_sk_field:
  "fst (Item_init Doc None None (Table_init ''t'' PyStr (Some PyStr))) = Inr doc_item \<and>
   item_sk doc_item = None \<and> sort_key_type (item_table doc_item) = Some PyStr \<and>
   put_item_Item rt doc_item [(''id'', PStr ''a''), (''sk'', PStr ''zzz'')]
     = Inr [(''pk'', PStr ''DI#a''), (''sk'', PStr ''zzz''), (''id'', PStr ''a'')] \<and>
   get_item_Key rt doc_item (PStr ''a'') PNone
     = Inr [(''pk'', PStr ''DI#a''), (''sk'', PStr ''A'')]"
  by (simp add: doc_item_def Doc_def eval_defs item_defs)

lemma validate_fields_missing:
  "(n, f) \<in> set fs \<Longrightarrow> f_default f = None \<Longrightarrow> validate_fields fs [] = Inl ValidationError"
proof (induction fs)
  case Nil
  then show ?case by simp
next
  case (Cons x fs)
  obtain n' f' where x: "x = (n', f')" by (cases x)
  show ?case
  proof (cases "(n, f) = (n', f')")
    case True
    with Cons.prems x show ?thesis by simp
  next
    case False
    with Cons x have "validate_fields fs [] = Inl ValidationError" by auto
    with x show ?thesis by (simp split: option.splits)
  qed
qed

text \<open>
  C8. When the store has no record under the composed key, \<^verbatim>\<open>get_item\<close> returns what
  \<^verbatim>\<open>model_validate\<close> makes of the empty dictionary; that is a \<^verbatim>\<open>ValidationError\<close> as soon
  as one field of the shape has no default.
\<close>

theorem get_item_not_found:
  assumes "get_item_Key rt it pk sk = Inr k"
    and "store_get_item (item_table it) st k = Inr None"
  shows "get_item rt it pk sk st = model_validate (item_model it) [] \<and>
     ((\<exists>n f. (n, f) \<in> set (model_fields (item_model it)) \<and> f_default f = None) \<longrightarrow>
        get_item rt it pk sk st = Inl ValidationError)"
  using assms by (auto simp add: get_item_def model_validate_def dest: validate_fields_missing)

theorem get_item_not_found_witness:
  "get_item_Key rt0 user_item (PStr ''a'') PNone = Inr [(''pk'', PStr ''UI#a'')] \<and>
   store_get_item (item_table user_item) Map.empty [(''pk'', PStr ''UI#a'')] = Inr None \<and>
   (''id'', required (TyClass ''str'')) \<in> set (model_fields (item_model user_item)) \<and>
   f_default (required (TyClass ''str'')) = None \<and>
   get_item rt0 user_item (PStr ''a'') PNone Map.empty = Inl ValidationError"
proof -
  have a: "get_item_Key rt0 user_item (PStr ''a'') PNone = Inr [(''pk'', PStr ''UI#a'')]"
    by (simp add: user_item_def eval_defs item_defs)
  have b: "store_get_item (item_table user_item) Map.empty [(''pk'', PStr ''UI#a'')] = Inr None"
    by (simp add: user_item_def eval_defs item_defs)
  have c: "(''id'', required (TyClass ''str'')) \<in> set (model_fields (item_model user_item))"
    by (simp add: user_item_def eval_defs)
  have d: "f_default (required (TyClass ''str'')) = None"
    by (simp add: required_def)
  from c d get_item_not_found [OF a b]
  have "get_item rt0 user_item (PStr ''a'') PNone Map.empty = Inl ValidationError" by blast
  with a b c d show ?thesis by blast
qed

lemma Item_init_without_sk:
  "Item_init m pk_arg None t = (Inr it, t') \<Longrightarrow> item_sk it = None"
  by (auto simp add: Item_init_def split: option.splits list.splits sum.splits prod.splits)

text \<open>
  C10. On an item constructed without \<^verbatim>\<open>sk\<close>, \<^verbatim>\<open>get_item\<close> with a sort key value other
  than \<^verbatim>\<open>None\<close> raises before the store is asked, whatever the store holds: the
  \<^verbatim>\<open>AttributeError\<close> of reading \<^verbatim>\<open>prefix\<close> on \<^verbatim>\<open>None\<close>, unless composing the partition key
  has raised already.
\<close>

theorem get_item_sort_value_without_sort_key:
  assumes "Item_init m pk_arg None t = (Inr it, t')" and "sk \<noteq> PNone"
  shows "\<exists>e. get_item_Key rt it pk sk = Inl e \<and> (\<forall>st. get_item rt it pk sk st = Inl e) \<and>
     (e = AttributeError ''prefix'' \<or> key_value rt it (Some (item_pk it)) pk = Inl e)"
proof -
  from assms(1) have n: "item_sk it = None" by (rule Item_init_without_sk)
  show ?thesis
  proof (cases "key_value rt it (Some (item_pk it)) pk")
    case (Inl e)
    then show ?thesis by (simp add: get_item_def get_item_Key_def)
  next
    case (Inr p)
    have "key_value rt it None sk = Inl (AttributeError ''prefix'')" by (simp add: key_value_def)
    with Inr n assms(2) show ?thesis by (simp add: get_item_def get_item_Key_def)
  qed
qed

theorem get_item_sort_value_without_sort_key_witness:
  "Item_init User None None (Table_init ''t'' PyStr None) = (Inr user_item, item_table user_item) \<and>
   PStr ''b'' \<noteq> PNone \<and>
   get_item rt0 user_item (PStr ''a'') (PStr ''b'') Map.empty = Inl (AttributeError ''prefix'')"
proof -
  have np: "PStr ''b'' \<noteq> PNone" by simp
  have kv: "key_value rt0 user_item (Some (item_pk user_item)) (PStr ''a'') = Inr (PStr ''UI#a'')"
    by (simp add: user_item_def eval_defs item_defs)
  from get_item_sort_value_without_sort_key [OF user_item_eq np, of rt0 "PStr ''a''"] kv
  have "get_item rt0 user_item (PStr ''a'') (PStr ''b'') Map.empty = Inl (AttributeError ''prefix'')"
    by auto
  with user_item_eq np show ?thesis by blast
qed

end
